theory Spec2Isabelle
  imports Main
begin

section \<open>Python strings\<close>

text \<open>
  A Python \<open>str\<close> is a sequence of code points. It is modelled as a HOL \<open>string\<close> in
  which every \<open>char\<close> stands for one code point of the range U+0000 to U+00FF, so that
  \<open>length\<close> counts what \<open>len\<close> counts. Code points above U+00FF are outside the model.
  The built-in methods the module calls are written out for that range.
\<close>

text \<open>\<open>str.lower\<close>: the letters A to Z and the capital letters of Latin-1 (U+00C0 to
  U+00DE without the multiplication sign U+00D7) move up by 32; nothing else changes.\<close>

definition lower_char :: "char \<Rightarrow> char" where
  "lower_char c =
     (let n = (of_char c :: nat)
      in if (65 \<le> n \<and> n \<le> 90) \<or> (192 \<le> n \<and> n \<le> 222 \<and> n \<noteq> 215)
         then char_of (n + 32) else c)"

definition str_lower :: "string \<Rightarrow> string" where
  "str_lower s = map lower_char s"

text \<open>\<open>str.isspace\<close> on one character: TAB, LF, VT, FF, CR, the separators U+001C to
  U+001F, the space, NEL (U+0085) and the no-break space (U+00A0).\<close>

definition isspace :: "char \<Rightarrow> bool" where
  "isspace c =
     (let n = (of_char c :: nat)
      in (9 \<le> n \<and> n \<le> 13) \<or> (28 \<le> n \<and> n \<le> 32) \<or> n = 133 \<or> n = 160)"

text \<open>\<open>str.strip()\<close> with no argument removes leading and trailing whitespace.\<close>

definition str_strip :: "string \<Rightarrow> string" where
  "str_strip s = rev (dropWhile isspace (rev (dropWhile isspace s)))"

text \<open>\<open>str.split(sep)\<close> for a separator of one character: every occurrence of the
  separator ends a piece, empty pieces are kept, and the result is never empty.\<close>

fun str_split :: "char \<Rightarrow> string \<Rightarrow> string list" where
  "str_split sep [] = [[]]"
| "str_split sep (c # cs) =
     (if c = sep then [] # str_split sep cs
      else (case str_split sep cs of
              [] \<Rightarrow> [[c]]
            | p # ps \<Rightarrow> (c # p) # ps))"

text \<open>\<open>str(i)\<close> for a non-negative integer, as an f-string renders it.\<close>

fun decimal :: "nat \<Rightarrow> string" where
  "decimal n =
     (if n < 10 then [char_of (48 + n)]
      else decimal (n div 10) @ [char_of (48 + n mod 10)])"

section \<open>Standard output\<close>

text \<open>
  The string literals that the module prints hold symbols above U+00FF, so printed text
  is a list of code points. Standard output is the list of the lines printed so far;
  \<open>print\<close> adds one line at its end. This is a stream that takes every line;
  a stream with an encoding, on which \<open>print\<close> can raise, comes further down.
\<close>

type_synonym unicode = "nat list"
type_synonym stdout = "unicode list"

definition to_unicode :: "string \<Rightarrow> unicode" where
  "to_unicode s = map of_char s"

definition print :: "unicode \<Rightarrow> stdout \<Rightarrow> stdout" where
  "print line out = out @ [line]"

section \<open>The catalog\<close>

record KnowledgeBase =
  id' :: string
  name :: string
  icon_url :: string
  brand_color :: string
  org_url :: string

definition KNOWLEDGE_BASES :: "KnowledgeBase list" where
  "KNOWLEDGE_BASES =
     [\<lparr>id' = ''8be6dfd9-ecaf-4e2b-8414-01aecb67e147'',
       name = ''Blossom Analysis'',
       icon_url = ''images/logos/blossom_analysis.jpg'',
       brand_color = ''#FFFFFF'',
       org_url = ''https://blossomanalysis.com''\<rparr>,
      \<lparr>id' = ''f73bbef9-ea3b-4f78-956d-b5fc38de7699'',
       name = ''Lucid News'',
       icon_url = ''images/logos/lucid_news.jpg'',
       brand_color = ''#2712BD'',
       org_url = ''https://lucidnews.com''\<rparr>,
      \<lparr>id' = ''f88d9d45-f25e-4051-8a84-a8d7873622b8'',
       name = ''MAPS'',
       icon_url = ''images/logos/maps.jpg'',
       brand_color = ''#2712BD'',
       org_url = ''https://maps.org''\<rparr>,
      \<lparr>id' = ''5f6e1ea5-1f3f-431a-8759-b66810582b73'',
       name = ''Psychedelic Alpha'',
       icon_url = ''images/logos/psychedelic_alpha.jpg'',
       brand_color = ''#CFC9E5'',
       org_url = ''https://psychedelicalpha.com''\<rparr>,
      \<lparr>id' = ''c34bc3da-d466-4a2d-94c3-2e6fffbe6d1d'',
       name = ''Psychedelics Today'',
       icon_url = ''images/logos/psychedelics_today.jpg'',
       brand_color = ''#FFFFFF'',
       org_url = ''https://psychedelictoday.com''\<rparr>]"

text \<open>
  The two dictionaries are built by comprehensions over the catalog: the entries are
  stored one after the other, a later entry replacing an earlier one under the same key.
\<close>

definition KNOWLEDGE_BASES_BY_ID :: "string \<rightharpoonup> KnowledgeBase" where
  "KNOWLEDGE_BASES_BY_ID = fold (\<lambda>kb d. d(id' kb \<mapsto> kb)) KNOWLEDGE_BASES Map.empty"

definition KNOWLEDGE_BASES_BY_NAME :: "string \<rightharpoonup> KnowledgeBase" where
  "KNOWLEDGE_BASES_BY_NAME =
     fold (\<lambda>kb d. d(str_lower (name kb) \<mapsto> kb)) KNOWLEDGE_BASES Map.empty"

definition get_knowledge_base_by_id :: "string \<Rightarrow> KnowledgeBase option" where
  "get_knowledge_base_by_id kb_id = KNOWLEDGE_BASES_BY_ID kb_id"

definition get_knowledge_base_by_name :: "string \<Rightarrow> KnowledgeBase option" where
  "get_knowledge_base_by_name nm = KNOWLEDGE_BASES_BY_NAME (str_lower nm)"

section \<open>Parsing a selection\<close>

text \<open>The line that \<open>parse_knowledge_base_selection\<close> prints for a name it does not
  find: a warning sign (U+26A0, U+FE0F), two spaces and the message with the name in
  single quotes.\<close>

definition warning_line :: "string \<Rightarrow> unicode" where
  "warning_line item =
     [0x26A0, 0xFE0F] @ to_unicode (''  Warning: Knowledge base '' @ [CHR 0x27] @ item
                                     @ [CHR 0x27] @ '' not found'')"

text \<open>The \<open>for\<close> loop over the items, with the list \<open>ids\<close> built so far and standard
  output as the state. An instance of a dataclass is always true, so \<open>if kb\<close> tests
  that the lookup found a record.\<close>

fun resolve_items :: "string list \<Rightarrow> string list \<times> stdout \<Rightarrow> string list \<times> stdout" where
  "resolve_items [] (ids, out) = (ids, out)"
| "resolve_items (item # items) (ids, out) =
     (if length item = 36 \<and> count_list item (CHR ''-'') = 4
      then resolve_items items (ids @ [item], out)
      else (case get_knowledge_base_by_name item of
              Some kb \<Rightarrow> resolve_items items (ids @ [id' kb], out)
            | None \<Rightarrow> resolve_items items (ids, print (warning_line item) out)))"

text \<open>The argument is \<open>None\<close> or a string: \<open>not selection\<close> holds of \<open>None\<close> and of
  the empty string. The function returns the list of ids and leaves standard output
  with the warnings added.\<close>

definition parse_knowledge_base_selection ::
    "string option \<Rightarrow> stdout \<Rightarrow> string list \<times> stdout" where
  "parse_knowledge_base_selection selection out =
     (case selection of
        None \<Rightarrow> ([], out)
      | Some s \<Rightarrow>
          if s = [] then ([], out)
          else if str_lower s = ''all'' then (map id' KNOWLEDGE_BASES, out)
          else
            let items = map str_strip
                          (filter (\<lambda>item. str_strip item \<noteq> []) (str_split (CHR '','') s))
            in resolve_items items ([], out))"

section \<open>Printing the catalog\<close>

text \<open>The first line printed is a books sign (U+1F4DA) and the heading, the second
  is fifty hyphens.\<close>

definition header_line :: unicode where
  "header_line = [0x1F4DA] @ to_unicode '' Available Knowledge Bases:''"

definition ruler_line :: unicode where
  "ruler_line = to_unicode (replicate 50 (CHR ''-''))"

text \<open>The body of the loop over \<open>enumerate(KNOWLEDGE_BASES, 1)\<close> prints three lines
  and an empty one for the entry \<open>kb\<close> at position \<open>i\<close>.\<close>

definition print_entry :: "nat \<Rightarrow> KnowledgeBase \<Rightarrow> stdout \<Rightarrow> stdout" where
  "print_entry i kb out =
     (let out = print (to_unicode (decimal i @ ''. '' @ name kb)) out;
          out = print (to_unicode (''   ID: '' @ id' kb)) out;
          out = print (to_unicode (''   URL: '' @ org_url kb)) out
      in print [] out)"

fun print_entries :: "(nat \<times> KnowledgeBase) list \<Rightarrow> stdout \<Rightarrow> stdout" where
  "print_entries [] out = out"
| "print_entries ((i, kb) # rest) out = print_entries rest (print_entry i kb out)"

text \<open>The usage examples: a light bulb (U+1F4A1) with a heading, then three fixed
  lines; \<open>CHR 0x22\<close> is the double quote.\<close>

definition usage_lines :: "unicode list" where
  "usage_lines =
     [[0x1F4A1] @ to_unicode '' Usage examples:'',
      to_unicode (''  By name: -k '' @ [CHR 0x22] @ ''Blossom Analysis,MAPS'' @ [CHR 0x22]),
      to_unicode (''  By ID: -k '' @ [CHR 0x22] @ ''8be6dfd9-ecaf-4e2b-8414-01aecb67e147''
                  @ [CHR 0x22]),
      to_unicode (''  All: -k '' @ [CHR 0x22] @ ''all'' @ [CHR 0x22])]"

text \<open>The function takes no argument and returns \<open>None\<close>; all it does is print.\<close>

definition print_available_knowledge_bases :: "stdout \<Rightarrow> stdout" where
  "print_available_knowledge_bases out =
     (let out = print header_line out;
          out = print ruler_line out;
          out = print_entries (List.enumerate 1 KNOWLEDGE_BASES) out
      in fold print usage_lines out)"

section \<open>Objects and references\<close>

text \<open>
  A Python list holds references to its elements, and \<open>@dataclass\<close> without
  \<open>frozen=True\<close> makes instances whose fields can be assigned. Where sharing matters,
  the records and the lists live in a heap: an object is a record or a list of
  references, and a new object gets the next free reference.
\<close>

type_synonym ref = nat

datatype object = Record KnowledgeBase | ListObj "ref list"

record heap =
  objects :: "ref \<rightharpoonup> object"
  next_ref :: ref

definition alloc :: "object \<Rightarrow> heap \<Rightarrow> ref \<times> heap" where
  "alloc ob h =
     (next_ref h, h\<lparr>objects := (objects h)(next_ref h \<mapsto> ob), next_ref := Suc (next_ref h)\<rparr>)"

text \<open>The heap when the module has been loaded: the records of the catalog in the
  order of their creation, then the list \<open>KNOWLEDGE_BASES\<close> that refers to them. The
  global name is never bound again, so the reference of the list is a constant.\<close>

definition KNOWLEDGE_BASES_ref :: ref where
  "KNOWLEDGE_BASES_ref = length KNOWLEDGE_BASES"

definition module_heap :: heap where
  "module_heap =
     \<lparr>objects = (\<lambda>a. if a < length KNOWLEDGE_BASES then Some (Record (KNOWLEDGE_BASES ! a))
                      else if a = KNOWLEDGE_BASES_ref
                           then Some (ListObj [0..<length KNOWLEDGE_BASES])
                           else None),
      next_ref = Suc KNOWLEDGE_BASES_ref\<rparr>"

text \<open>\<open>list.copy()\<close> makes a new list object with the same references (a shallow copy);
  on something that is not a list there is nothing to return.\<close>

definition list_copy :: "ref \<Rightarrow> heap \<Rightarrow> (ref \<times> heap) option" where
  "list_copy l h =
     (case objects h l of
        Some (ListObj xs) \<Rightarrow> Some (alloc (ListObj xs) h)
      | _ \<Rightarrow> None)"

definition list_available_knowledge_bases :: "heap \<Rightarrow> (ref \<times> heap) option" where
  "list_available_knowledge_bases h = list_copy KNOWLEDGE_BASES_ref h"

text \<open>What a caller can do with a list it holds: change the list object itself (item
  assignment, \<open>append\<close>, \<open>del\<close>, \<open>clear\<close>, \<open>sort\<close>: each leaves some new contents in
  the same object), or assign a field of one of its elements.\<close>

definition list_store :: "ref \<Rightarrow> ref list \<Rightarrow> heap \<Rightarrow> heap" where
  "list_store l xs h = h\<lparr>objects := (objects h)(l \<mapsto> ListObj xs)\<rparr>"

definition get_item :: "heap \<Rightarrow> ref \<Rightarrow> nat \<Rightarrow> ref option" where
  "get_item h l i =
     (case objects h l of
        Some (ListObj xs) \<Rightarrow> (if i < length xs then Some (xs ! i) else None)
      | _ \<Rightarrow> None)"

definition set_name :: "ref \<Rightarrow> string \<Rightarrow> heap \<Rightarrow> heap" where
  "set_name a v h =
     (case objects h a of
        Some (Record kb) \<Rightarrow> h\<lparr>objects := (objects h)(a \<mapsto> Record (kb\<lparr>name := v\<rparr>))\<rparr>
      | _ \<Rightarrow> h)"

text \<open>The records a list refers to, in order; the catalog is what the global list
  refers to.\<close>

definition get_record :: "heap \<Rightarrow> ref \<Rightarrow> KnowledgeBase option" where
  "get_record h a = (case objects h a of Some (Record kb) \<Rightarrow> Some kb | _ \<Rightarrow> None)"

definition deref_list :: "heap \<Rightarrow> ref \<Rightarrow> KnowledgeBase option list" where
  "deref_list h l =
     (case objects h l of
        Some (ListObj xs) \<Rightarrow> map (get_record h) xs
      | _ \<Rightarrow> [])"

definition catalog :: "heap \<Rightarrow> KnowledgeBase option list" where
  "catalog h = deref_list h KNOWLEDGE_BASES_ref"

text \<open>A caller that takes the listing and assigns the field \<open>name\<close> of its first
  element: \<open>kbs = list_available_knowledge_bases(); kbs[0].name = v\<close>.\<close>

definition rename_first :: "string \<Rightarrow> heap \<Rightarrow> heap option" where
  "rename_first v h =
     (case list_available_knowledge_bases h of
        None \<Rightarrow> None
      | Some (r, h1) \<Rightarrow>
          (case get_item h1 r 0 of
             None \<Rightarrow> None
           | Some a \<Rightarrow> Some (set_name a v h1)))"

section \<open>Standard output with an encoding\<close>

text \<open>
  \<open>print\<close> encodes the line for the stream it writes to, and the stream's error
  handler is \<open>strict\<close>: a line with a code point that the encoding does not have
  raises \<open>UnicodeEncodeError\<close>, and nothing of the line is written. An encoding is
  given by the code points it can encode: UTF-8 has all of them but the surrogates,
  ASCII has those below 128.
\<close>

datatype error = UnicodeEncodeError

type_synonym encoding = "nat \<Rightarrow> bool"

definition utf_8 :: encoding where
  "utf_8 c \<longleftrightarrow> c < 0xD800 \<or> (0xDFFF < c \<and> c < 0x110000)"

definition ascii :: encoding where
  "ascii c \<longleftrightarrow> c < 128"

definition print_enc :: "encoding \<Rightarrow> unicode \<Rightarrow> stdout \<Rightarrow> error + stdout" where
  "print_enc enc line out =
     (if list_all enc line then Inr (print line out) else Inl UnicodeEncodeError)"

text \<open>The loop and the function once more, on such a stream: nothing in the module
  catches the exception, so it ends the loop and the call.\<close>

fun resolve_items_enc ::
    "encoding \<Rightarrow> string list \<Rightarrow> string list \<times> stdout \<Rightarrow> error + string list \<times> stdout" where
  "resolve_items_enc enc [] (ids, out) = Inr (ids, out)"
| "resolve_items_enc enc (item # items) (ids, out) =
     (if length item = 36 \<and> count_list item (CHR ''-'') = 4
      then resolve_items_enc enc items (ids @ [item], out)
      else (case get_knowledge_base_by_name item of
              Some kb \<Rightarrow> resolve_items_enc enc items (ids @ [id' kb], out)
            | None \<Rightarrow>
                (case print_enc enc (warning_line item) out of
                   Inl e \<Rightarrow> Inl e
                 | Inr out' \<Rightarrow> resolve_items_enc enc items (ids, out'))))"

definition parse_knowledge_base_selection_enc ::
    "encoding \<Rightarrow> string option \<Rightarrow> stdout \<Rightarrow> error + string list \<times> stdout" where
  "parse_knowledge_base_selection_enc enc selection out =
     (case selection of
        None \<Rightarrow> Inr ([], out)
      | Some s \<Rightarrow>
          if s = [] then Inr ([], out)
          else if str_lower s = ''all'' then Inr (map id' KNOWLEDGE_BASES, out)
          else
            let items = map str_strip
                          (filter (\<lambda>item. str_strip item \<noteq> []) (str_split (CHR '','') s))
            in resolve_items_enc enc items ([], out))"

section \<open>The selection in the words of its description\<close>

text \<open>A piece is shaped like an id when it has 36 characters, four of them hyphens.\<close>

definition ID_shaped :: "string \<Rightarrow> bool" where
  "ID_shaped p \<longleftrightarrow> length p = 36 \<and> count_list p (CHR ''-'') = 4"

text \<open>The pieces of a selection: split on commas, trim each piece, drop the empty
  ones.\<close>

definition selection_pieces :: "string \<Rightarrow> string list" where
  "selection_pieces s = filter (\<lambda>p. p \<noteq> []) (map str_strip (str_split (CHR '','') s))"

text \<open>What one piece adds to the result, and what it adds to standard output.\<close>

definition resolve_piece :: "string \<Rightarrow> string list" where
  "resolve_piece p =
     (if ID_shaped p then [p]
      else (case get_knowledge_base_by_name p of Some kb \<Rightarrow> [id' kb] | None \<Rightarrow> []))"

definition piece_warnings :: "string \<Rightarrow> unicode list" where
  "piece_warnings p =
     (if ID_shaped p then []
      else (case get_knowledge_base_by_name p of Some kb \<Rightarrow> [] | None \<Rightarrow> [warning_line p]))"

text \<open>One block of the printed catalog: position and name, id, URL, empty line.\<close>

definition entry_block :: "nat \<Rightarrow> KnowledgeBase \<Rightarrow> unicode list" where
  "entry_block i kb =
     [to_unicode (decimal i @ ''. '' @ name kb),
      to_unicode (''   ID: '' @ id' kb),
      to_unicode (''   URL: '' @ org_url kb),
      []]"

section \<open>Evaluation and lookup lemmas\<close>

text \<open>Facts for evaluating \<open>str_lower\<close> on a literal.\<close>

lemmas lower_eval = str_lower_def lower_char_def char_of_def bit_Suc_0_iff

text \<open>A dictionary built by a comprehension over a list with distinct keys finds
  exactly the element that has the key.\<close>

lemma dict_lookup_gen:
  "distinct (map f xs) \<Longrightarrow>
   (fold (\<lambda>x d. d(f x \<mapsto> x)) xs m k = Some y) \<longleftrightarrow>
   (y \<in> set xs \<and> f y = k) \<or> (k \<notin> f ` set xs \<and> m k = Some y)"
proof (induction xs arbitrary: m)
  case Nil
  then show ?case by simp
next
  case (Cons x xs)
  from Cons.prems have d: "distinct (map f xs)" and nx: "f x \<notin> f ` set xs"
    by simp_all
  have "(fold (\<lambda>x d. d(f x \<mapsto> x)) (x # xs) m k = Some y) \<longleftrightarrow>
        (fold (\<lambda>x d. d(f x \<mapsto> x)) xs (m(f x \<mapsto> x)) k = Some y)"
    by (simp only: fold.simps comp_apply)
  also have "\<dots> \<longleftrightarrow>
        (y \<in> set xs \<and> f y = k) \<or> (k \<notin> f ` set xs \<and> (m(f x \<mapsto> x)) k = Some y)"
    by (rule Cons.IH [OF d])
  also have "\<dots> \<longleftrightarrow>
        (y \<in> set (x # xs) \<and> f y = k) \<or> (k \<notin> f ` set (x # xs) \<and> m k = Some y)"
    using nx by auto
  finally show ?case .
qed

lemma dict_lookup_Some_iff:
  "distinct (map f xs) \<Longrightarrow>
   (fold (\<lambda>x d. d(f x \<mapsto> x)) xs Map.empty k = Some y) \<longleftrightarrow> (y \<in> set xs \<and> f y = k)"
  by (simp add: dict_lookup_gen)

lemma dict_lookup_None_gen:
  "(fold (\<lambda>x d. d(f x \<mapsto> x)) xs m k = None) \<longleftrightarrow> (k \<notin> f ` set xs \<and> m k = None)"
proof (induction xs arbitrary: m)
  case Nil
  then show ?case by simp
next
  case (Cons x xs)
  have "(fold (\<lambda>x d. d(f x \<mapsto> x)) (x # xs) m k = None) \<longleftrightarrow>
        (fold (\<lambda>x d. d(f x \<mapsto> x)) xs (m(f x \<mapsto> x)) k = None)"
    by (simp only: fold.simps comp_apply)
  also have "\<dots> \<longleftrightarrow> (k \<notin> f ` set xs \<and> (m(f x \<mapsto> x)) k = None)"
    by (rule Cons.IH)
  also have "\<dots> \<longleftrightarrow> (k \<notin> f ` set (x # xs) \<and> m k = None)"
    by auto
  finally show ?case .
qed

lemma dict_lookup_None_iff:
  "(fold (\<lambda>x d. d(f x \<mapsto> x)) xs Map.empty k = None) \<longleftrightarrow> k \<notin> f ` set xs"
  by (simp add: dict_lookup_None_gen)

lemma distinct_ids: "distinct (map id' KNOWLEDGE_BASES)"
  by (simp add: KNOWLEDGE_BASES_def)

lemma distinct_lower_names: "distinct (map (\<lambda>kb. str_lower (name kb)) KNOWLEDGE_BASES)"
  by (simp add: KNOWLEDGE_BASES_def lower_eval)

lemma by_id_Some_iff:
  "get_knowledge_base_by_id k = Some kb \<longleftrightarrow> kb \<in> set KNOWLEDGE_BASES \<and> id' kb = k"
  unfolding get_knowledge_base_by_id_def KNOWLEDGE_BASES_BY_ID_def
  by (rule dict_lookup_Some_iff [OF distinct_ids])

lemma by_id_None_iff:
  "get_knowledge_base_by_id k = None \<longleftrightarrow> k \<notin> id' ` set KNOWLEDGE_BASES"
  unfolding get_knowledge_base_by_id_def KNOWLEDGE_BASES_BY_ID_def
  by (rule dict_lookup_None_iff)

lemma by_name_Some_iff:
  "get_knowledge_base_by_name nm = Some kb \<longleftrightarrow>
   kb \<in> set KNOWLEDGE_BASES \<and> str_lower (name kb) = str_lower nm"
  unfolding get_knowledge_base_by_name_def KNOWLEDGE_BASES_BY_NAME_def
  by (rule dict_lookup_Some_iff [OF distinct_lower_names])

lemma by_name_None_iff:
  "get_knowledge_base_by_name nm = None \<longleftrightarrow>
   str_lower nm \<notin> (\<lambda>kb. str_lower (name kb)) ` set KNOWLEDGE_BASES"
  unfolding get_knowledge_base_by_name_def KNOWLEDGE_BASES_BY_NAME_def
  by (rule dict_lookup_None_iff)

lemma catalog_ids_shaped: "kb \<in> set KNOWLEDGE_BASES \<Longrightarrow> ID_shaped (id' kb)"
  by (auto simp: KNOWLEDGE_BASES_def ID_shaped_def)

text \<open>The loop adds, piece by piece, what each piece contributes.\<close>

lemma resolve_items_eq:
  "resolve_items xs (ids, out) =
   (ids @ concat (map resolve_piece xs), out @ concat (map piece_warnings xs))"
  by (induction xs arbitrary: ids out)
     (simp_all add: resolve_piece_def piece_warnings_def ID_shaped_def print_def
        split: option.split)

lemma items_eq_pieces:
  "map str_strip (filter (\<lambda>item. str_strip item \<noteq> []) xs) =
   filter (\<lambda>p. p \<noteq> []) (map str_strip xs)"
  by (induction xs) simp_all

lemma parse_as_pieces:
  "s \<noteq> [] \<Longrightarrow> str_lower s \<noteq> ''all'' \<Longrightarrow>
   parse_knowledge_base_selection (Some s) out =
   (concat (map resolve_piece (selection_pieces s)),
    out @ concat (map piece_warnings (selection_pieces s)))"
  by (simp add: parse_knowledge_base_selection_def selection_pieces_def items_eq_pieces
      resolve_items_eq Let_def)

section \<open>The catalog and its indices\<close>

text \<open>
  C6: in the hardcoded catalog the ids are pairwise different and so are the lowercased
  names; the two indices hold exactly the records of the catalog under their keys.
  So a lookup by id gives the one record with that id, and nothing for an id that no
  record has; a lookup by name gives the one record whose lowercased name is the
  lowercased argument, and nothing when no record has such a name.
\<close>

theorem catalog_lookups_exact:
  "distinct (map id' KNOWLEDGE_BASES)
   \<and> distinct (map (\<lambda>kb. str_lower (name kb)) KNOWLEDGE_BASES)
   \<and> (\<forall>k kb. KNOWLEDGE_BASES_BY_ID k = Some kb \<longleftrightarrow> kb \<in> set KNOWLEDGE_BASES \<and> id' kb = k)
   \<and> (\<forall>k kb. KNOWLEDGE_BASES_BY_NAME k = Some kb \<longleftrightarrow>
                kb \<in> set KNOWLEDGE_BASES \<and> str_lower (name kb) = k)
   \<and> (\<forall>kb \<in> set KNOWLEDGE_BASES. get_knowledge_base_by_id (id' kb) = Some kb)
   \<and> (\<forall>k. k \<notin> id' ` set KNOWLEDGE_BASES \<longrightarrow> get_knowledge_base_by_id k = None)
   \<and> (\<forall>kb \<in> set KNOWLEDGE_BASES. \<forall>nm.
         str_lower nm = str_lower (name kb) \<longrightarrow> get_knowledge_base_by_name nm = Some kb)
   \<and> (\<forall>nm. str_lower nm \<notin> (\<lambda>kb. str_lower (name kb)) ` set KNOWLEDGE_BASES \<longrightarrow>
             get_knowledge_base_by_name nm = None)"
proof -
  have by_id: "\<forall>k kb. KNOWLEDGE_BASES_BY_ID k = Some kb \<longleftrightarrow>
                       kb \<in> set KNOWLEDGE_BASES \<and> id' kb = k"
    unfolding KNOWLEDGE_BASES_BY_ID_def
    by (intro allI) (rule dict_lookup_Some_iff [OF distinct_ids])
  have by_name: "\<forall>k kb. KNOWLEDGE_BASES_BY_NAME k = Some kb \<longleftrightarrow>
                         kb \<in> set KNOWLEDGE_BASES \<and> str_lower (name kb) = k"
    unfolding KNOWLEDGE_BASES_BY_NAME_def
    by (intro allI) (rule dict_lookup_Some_iff [OF distinct_lower_names])
  have id_hit: "\<forall>kb \<in> set KNOWLEDGE_BASES. get_knowledge_base_by_id (id' kb) = Some kb"
    by (simp add: by_id_Some_iff)
  have id_miss: "\<forall>k. k \<notin> id' ` set KNOWLEDGE_BASES \<longrightarrow> get_knowledge_base_by_id k = None"
    by (simp add: by_id_None_iff)
  have name_hit: "\<forall>kb \<in> set KNOWLEDGE_BASES. \<forall>nm.
         str_lower nm = str_lower (name kb) \<longrightarrow> get_knowledge_base_by_name nm = Some kb"
    by (simp add: by_name_Some_iff)
  have name_miss: "\<forall>nm. str_lower nm \<notin> (\<lambda>kb. str_lower (name kb)) ` set KNOWLEDGE_BASES \<longrightarrow>
             get_knowledge_base_by_name nm = None"
    by (simp add: by_name_None_iff)
  from distinct_ids distinct_lower_names by_id by_name id_hit id_miss name_hit name_miss
  show ?thesis by (intro conjI)
qed

text \<open>At the third entry: its id and its name in another case find it; an id and a
  name that the catalog does not have find nothing.\<close>

theorem catalog_lookups_exact_witness:
  "KNOWLEDGE_BASES ! 2 \<in> set KNOWLEDGE_BASES
   \<and> get_knowledge_base_by_id ''f88d9d45-f25e-4051-8a84-a8d7873622b8'' = Some (KNOWLEDGE_BASES ! 2)
   \<and> get_knowledge_base_by_name ''Maps'' = Some (KNOWLEDGE_BASES ! 2)
   \<and> ''11111111-1111-1111-1111-111111111111'' \<notin> id' ` set KNOWLEDGE_BASES
   \<and> get_knowledge_base_by_id ''11111111-1111-1111-1111-111111111111'' = None
   \<and> str_lower ''Nonexistent Org'' \<notin> (\<lambda>kb. str_lower (name kb)) ` set KNOWLEDGE_BASES
   \<and> get_knowledge_base_by_name ''Nonexistent Org'' = None"
proof -
  have m: "KNOWLEDGE_BASES ! 2 \<in> set KNOWLEDGE_BASES"
    by (simp add: KNOWLEDGE_BASES_def)
  have i: "id' (KNOWLEDGE_BASES ! 2) = ''f88d9d45-f25e-4051-8a84-a8d7873622b8''"
    by (simp add: KNOWLEDGE_BASES_def)
  have n: "str_lower ''Maps'' = str_lower (name (KNOWLEDGE_BASES ! 2))"
    by (simp add: KNOWLEDGE_BASES_def lower_eval)
  have a: "''11111111-1111-1111-1111-111111111111'' \<notin> id' ` set KNOWLEDGE_BASES"
    by (simp add: KNOWLEDGE_BASES_def)
  have b: "str_lower ''Nonexistent Org'' \<notin> (\<lambda>kb. str_lower (name kb)) ` set KNOWLEDGE_BASES"
    by (simp add: KNOWLEDGE_BASES_def lower_eval)
  from catalog_lookups_exact
  have id_hit: "\<forall>kb \<in> set KNOWLEDGE_BASES. get_knowledge_base_by_id (id' kb) = Some kb"
    by (elim conjE)
  from catalog_lookups_exact
  have id_miss: "\<forall>k. k \<notin> id' ` set KNOWLEDGE_BASES \<longrightarrow> get_knowledge_base_by_id k = None"
    by (elim conjE)
  from catalog_lookups_exact
  have name_hit: "\<forall>kb \<in> set KNOWLEDGE_BASES. \<forall>nm.
         str_lower nm = str_lower (name kb) \<longrightarrow> get_knowledge_base_by_name nm = Some kb"
    by (elim conjE)
  from catalog_lookups_exact
  have name_miss: "\<forall>nm. str_lower nm \<notin> (\<lambda>kb. str_lower (name kb)) ` set KNOWLEDGE_BASES \<longrightarrow>
             get_knowledge_base_by_name nm = None"
    by (elim conjE)
  from id_hit m have "get_knowledge_base_by_id (id' (KNOWLEDGE_BASES ! 2)) = Some (KNOWLEDGE_BASES ! 2)"
    by (rule bspec)
  then have 1: "get_knowledge_base_by_id ''f88d9d45-f25e-4051-8a84-a8d7873622b8'' =
                Some (KNOWLEDGE_BASES ! 2)"
    by (simp only: i)
  from name_hit m n have 2: "get_knowledge_base_by_name ''Maps'' = Some (KNOWLEDGE_BASES ! 2)"
    by blast
  from id_miss a have 3: "get_knowledge_base_by_id ''11111111-1111-1111-1111-111111111111'' = None"
    by blast
  from name_miss b have 4: "get_knowledge_base_by_name ''Nonexistent Org'' = None"
    by blast
  from m 1 2 a 3 b 4 show ?thesis
    by (intro conjI)
qed

section \<open>The selection \<open>all\<close> and the empty selection\<close>

text \<open>
  C1: for a selection that is \<open>all\<close> when lowercased, \<open>parse_knowledge_base_selection\<close>
  returns the id of every entry of the catalog in the order of the catalog, as many
  ids as the catalog has entries, and prints nothing.
\<close>

theorem all_selects_every_id:
  assumes "str_lower s = ''all''"
  shows "parse_knowledge_base_selection (Some s) out = (map id' KNOWLEDGE_BASES, out)
         \<and> length (fst (parse_knowledge_base_selection (Some s) out)) = length KNOWLEDGE_BASES
         \<and> fst (parse_knowledge_base_selection (Some s) out) =
             [''8be6dfd9-ecaf-4e2b-8414-01aecb67e147'',
              ''f73bbef9-ea3b-4f78-956d-b5fc38de7699'',
              ''f88d9d45-f25e-4051-8a84-a8d7873622b8'',
              ''5f6e1ea5-1f3f-431a-8759-b66810582b73'',
              ''c34bc3da-d466-4a2d-94c3-2e6fffbe6d1d'']"
proof -
  from assms have "s \<noteq> []"
    by (auto simp: str_lower_def)
  with assms have r: "parse_knowledge_base_selection (Some s) out = (map id' KNOWLEDGE_BASES, out)"
    by (simp add: parse_knowledge_base_selection_def)
  have l: "length (fst (parse_knowledge_base_selection (Some s) out)) = length KNOWLEDGE_BASES"
    by (simp add: r)
  have e: "fst (parse_knowledge_base_selection (Some s) out) =
             [''8be6dfd9-ecaf-4e2b-8414-01aecb67e147'',
              ''f73bbef9-ea3b-4f78-956d-b5fc38de7699'',
              ''f88d9d45-f25e-4051-8a84-a8d7873622b8'',
              ''5f6e1ea5-1f3f-431a-8759-b66810582b73'',
              ''c34bc3da-d466-4a2d-94c3-2e6fffbe6d1d'']"
    by (simp add: r KNOWLEDGE_BASES_def)
  from r l e show ?thesis
    by (intro conjI)
qed

theorem all_selects_every_id_witness:
  "str_lower ''ALL'' = ''all''
   \<and> parse_knowledge_base_selection (Some ''ALL'') [] = (map id' KNOWLEDGE_BASES, [])
   \<and> length (fst (parse_knowledge_base_selection (Some ''ALL'') [])) = 5"
proof -
  have h: "str_lower ''ALL'' = ''all''"
    by (simp add: lower_eval)
  have n: "length KNOWLEDGE_BASES = 5"
    by (simp add: KNOWLEDGE_BASES_def)
  from all_selects_every_id [OF h, of "[]"] h n show ?thesis
    by simp
qed

text \<open>
  C5: for the empty string and for \<open>None\<close> the function returns the empty list and
  prints nothing. The model has no error value: neither branch calls anything.
\<close>

theorem empty_selection_gives_no_ids:
  "parse_knowledge_base_selection (Some []) out = ([], out)
   \<and> parse_knowledge_base_selection None out = ([], out)"
  by (simp add: parse_knowledge_base_selection_def)

section \<open>A selection that lists pieces\<close>

text \<open>The name index as a table, for looking up a literal.\<close>

lemma by_name_table:
  "KNOWLEDGE_BASES_BY_NAME =
     [''blossom analysis'' \<mapsto> KNOWLEDGE_BASES ! 0,
      ''lucid news'' \<mapsto> KNOWLEDGE_BASES ! 1,
      ''maps'' \<mapsto> KNOWLEDGE_BASES ! 2,
      ''psychedelic alpha'' \<mapsto> KNOWLEDGE_BASES ! 3,
      ''psychedelics today'' \<mapsto> KNOWLEDGE_BASES ! 4]"
  by (simp add: KNOWLEDGE_BASES_BY_NAME_def KNOWLEDGE_BASES_def lower_eval)

lemmas piece_eval =
  resolve_piece_def piece_warnings_def ID_shaped_def get_knowledge_base_by_name_def
  by_name_table lower_eval

lemmas pieces_eval = selection_pieces_def str_strip_def isspace_def

lemma resolve_piece_cases: "resolve_piece p = [] \<or> (\<exists>x. resolve_piece p = [x])"
  by (simp add: resolve_piece_def split: option.split)

lemma length_concat_resolve:
  "length (concat (map resolve_piece ps)) = length (filter (\<lambda>p. resolve_piece p \<noteq> []) ps)"
proof (induction ps)
  case Nil
  then show ?case by simp
next
  case (Cons p ps)
  from resolve_piece_cases [of p] show ?case
    by (auto simp: Cons.IH)
qed

lemma count_concat_resolve:
  "resolve_piece p = [x] \<Longrightarrow> count_list ps p \<le> count_list (concat (map resolve_piece ps)) x"
  by (induction ps) auto

lemma parse_split_at:
  assumes "s \<noteq> []" and "str_lower s \<noteq> ''all''" and "selection_pieces s = pre @ p # post"
  shows "parse_knowledge_base_selection (Some s) out =
         (concat (map resolve_piece pre) @ resolve_piece p @ concat (map resolve_piece post),
          out @ concat (map piece_warnings pre) @ piece_warnings p
              @ concat (map piece_warnings post))"
  by (simp add: parse_as_pieces [OF assms(1,2)] assms(3))

lemma by_name_in_catalog:
  "get_knowledge_base_by_name nm = Some kb \<Longrightarrow> kb \<in> set KNOWLEDGE_BASES"
  by (simp add: by_name_Some_iff)

lemma resolve_piece_shaped:
  assumes "x \<in> set (resolve_piece p)"
  shows "ID_shaped x"
proof (cases "ID_shaped p")
  case True
  with assms show ?thesis
    by (simp add: resolve_piece_def)
next
  case False
  show ?thesis
  proof (cases "get_knowledge_base_by_name p")
    case None
    with False assms show ?thesis
      by (simp add: resolve_piece_def)
  next
    case (Some kb)
    with False assms have "x = id' kb"
      by (simp add: resolve_piece_def)
    moreover from Some have "kb \<in> set KNOWLEDGE_BASES"
      by (rule by_name_in_catalog)
    ultimately show ?thesis
      by (simp add: catalog_ids_shaped)
  qed
qed

text \<open>
  C2: a selection that is neither empty nor \<open>all\<close> is split on commas, each piece is
  trimmed and the empty pieces are dropped; the result is what the pieces give one by
  one, in their order. Nothing is removed afterwards: there are as many ids as pieces
  that resolve, and an id occurs at least as often as a piece that gives it.
\<close>

theorem selection_resolved_piece_by_piece:
  assumes "s \<noteq> []" and "str_lower s \<noteq> ''all''"
  shows "fst (parse_knowledge_base_selection (Some s) out) =
           concat (map resolve_piece (selection_pieces s))
         \<and> length (fst (parse_knowledge_base_selection (Some s) out)) =
             length (filter (\<lambda>p. resolve_piece p \<noteq> []) (selection_pieces s))
         \<and> (\<forall>p x. resolve_piece p = [x] \<longrightarrow>
               count_list (selection_pieces s) p
                 \<le> count_list (fst (parse_knowledge_base_selection (Some s) out)) x)"
proof -
  have r: "fst (parse_knowledge_base_selection (Some s) out) =
           concat (map resolve_piece (selection_pieces s))"
    by (simp add: parse_as_pieces [OF assms])
  have l: "length (fst (parse_knowledge_base_selection (Some s) out)) =
             length (filter (\<lambda>p. resolve_piece p \<noteq> []) (selection_pieces s))"
    by (simp only: r length_concat_resolve)
  have c: "\<forall>p x. resolve_piece p = [x] \<longrightarrow>
               count_list (selection_pieces s) p
                 \<le> count_list (fst (parse_knowledge_base_selection (Some s) out)) x"
    by (simp only: r) (blast intro: count_concat_resolve)
  from r l c show ?thesis
    by (intro conjI)
qed

text \<open>The same name twice gives its id twice; names in another case and with a space
  after the comma are found, in the order they were given.\<close>

theorem selection_resolved_piece_by_piece_witness:
  "''Blossom Analysis,Blossom Analysis'' \<noteq> []
   \<and> str_lower ''Blossom Analysis,Blossom Analysis'' \<noteq> ''all''
   \<and> fst (parse_knowledge_base_selection (Some ''Blossom Analysis,Blossom Analysis'') []) =
       [''8be6dfd9-ecaf-4e2b-8414-01aecb67e147'', ''8be6dfd9-ecaf-4e2b-8414-01aecb67e147'']
   \<and> fst (parse_knowledge_base_selection (Some ''maps, blossom analysis'') []) =
       [''f88d9d45-f25e-4051-8a84-a8d7873622b8'', ''8be6dfd9-ecaf-4e2b-8414-01aecb67e147'']"
proof -
  have h1: "''Blossom Analysis,Blossom Analysis'' \<noteq> []"
    by simp
  have h2: "str_lower ''Blossom Analysis,Blossom Analysis'' \<noteq> ''all''"
    by (simp add: str_lower_def)
  have p: "selection_pieces ''Blossom Analysis,Blossom Analysis'' =
           [''Blossom Analysis'', ''Blossom Analysis'']"
    by (simp add: pieces_eval)
  have r: "resolve_piece ''Blossom Analysis'' = [''8be6dfd9-ecaf-4e2b-8414-01aecb67e147'']"
    by (simp add: piece_eval) (simp add: KNOWLEDGE_BASES_def)
  have g1: "''maps, blossom analysis'' \<noteq> []"
    by simp
  have g2: "str_lower ''maps, blossom analysis'' \<noteq> ''all''"
    by (simp add: str_lower_def)
  have q: "selection_pieces ''maps, blossom analysis'' = [''maps'', ''blossom analysis'']"
    by (simp add: pieces_eval)
  have r1: "resolve_piece ''maps'' = [''f88d9d45-f25e-4051-8a84-a8d7873622b8'']"
    by (simp add: piece_eval) (simp add: KNOWLEDGE_BASES_def)
  have r2: "resolve_piece ''blossom analysis'' = [''8be6dfd9-ecaf-4e2b-8414-01aecb67e147'']"
    by (simp add: piece_eval) (simp add: KNOWLEDGE_BASES_def)
  from selection_resolved_piece_by_piece [OF h1 h2, of "[]"]
  have a: "fst (parse_knowledge_base_selection (Some ''Blossom Analysis,Blossom Analysis'') []) =
       [''8be6dfd9-ecaf-4e2b-8414-01aecb67e147'', ''8be6dfd9-ecaf-4e2b-8414-01aecb67e147'']"
    by (simp add: p r)
  from selection_resolved_piece_by_piece [OF g1 g2, of "[]"]
  have b: "fst (parse_knowledge_base_selection (Some ''maps, blossom analysis'') []) =
       [''f88d9d45-f25e-4051-8a84-a8d7873622b8'', ''8be6dfd9-ecaf-4e2b-8414-01aecb67e147'']"
    by (simp add: q r1 r2)
  from h1 h2 a b show ?thesis
    by (intro conjI)
qed

text \<open>
  C3: a trimmed piece of 36 characters with four hyphens goes into the result as it
  is, at its place among what the other pieces give, and nothing is printed for it.
  Nothing is assumed about the catalog: the piece need not be the id of an entry.
\<close>

theorem id_shaped_piece_passes_through:
  assumes "s \<noteq> []" and "str_lower s \<noteq> ''all''"
    and "selection_pieces s = pre @ p # post"
    and "length p = 36" and "count_list p (CHR ''-'') = 4"
  shows "parse_knowledge_base_selection (Some s) out =
         (concat (map resolve_piece pre) @ [p] @ concat (map resolve_piece post),
          out @ concat (map piece_warnings pre) @ concat (map piece_warnings post))"
proof -
  from assms(4,5) have "resolve_piece p = [p]" and "piece_warnings p = []"
    by (simp_all add: resolve_piece_def piece_warnings_def ID_shaped_def)
  with parse_split_at [OF assms(1-3), of out] show ?thesis
    by simp
qed

text \<open>An id of that shape which no entry of the catalog has is returned unchanged.\<close>

theorem id_shaped_piece_passes_through_witness:
  "''11111111-1111-1111-1111-111111111111'' \<noteq> []
   \<and> str_lower ''11111111-1111-1111-1111-111111111111'' \<noteq> ''all''
   \<and> selection_pieces ''11111111-1111-1111-1111-111111111111'' =
       [] @ ''11111111-1111-1111-1111-111111111111'' # []
   \<and> length ''11111111-1111-1111-1111-111111111111'' = 36
   \<and> count_list ''11111111-1111-1111-1111-111111111111'' (CHR ''-'') = 4
   \<and> get_knowledge_base_by_id ''11111111-1111-1111-1111-111111111111'' = None
   \<and> parse_knowledge_base_selection (Some ''11111111-1111-1111-1111-111111111111'') [] =
       ([''11111111-1111-1111-1111-111111111111''], [])"
proof -
  have h1: "''11111111-1111-1111-1111-111111111111'' \<noteq> []"
    by simp
  have h2: "str_lower ''11111111-1111-1111-1111-111111111111'' \<noteq> ''all''"
    by (simp add: str_lower_def)
  have h3: "selection_pieces ''11111111-1111-1111-1111-111111111111'' =
            [] @ ''11111111-1111-1111-1111-111111111111'' # []"
    by (simp add: pieces_eval)
  have h4: "length ''11111111-1111-1111-1111-111111111111'' = 36"
    by simp
  have h5: "count_list ''11111111-1111-1111-1111-111111111111'' (CHR ''-'') = 4"
    by simp
  have n: "get_knowledge_base_by_id ''11111111-1111-1111-1111-111111111111'' = None"
    by (simp add: by_id_None_iff KNOWLEDGE_BASES_def)
  from id_shaped_piece_passes_through [OF h1 h2 h3 h4 h5, of "[]"]
  have r: "parse_knowledge_base_selection (Some ''11111111-1111-1111-1111-111111111111'') [] =
       ([''11111111-1111-1111-1111-111111111111''], [])"
    by simp
  from h1 h2 h3 h4 h5 n r show ?thesis
    by (intro conjI)
qed

text \<open>On a stream that can encode every warning line that the pieces give, the call
  raises nothing and does what it does on a stream that takes every line.\<close>

lemma resolve_items_enc_eq:
  "\<forall>l \<in> set (concat (map piece_warnings xs)). list_all enc l \<Longrightarrow>
   resolve_items_enc enc xs (ids, out) = Inr (resolve_items xs (ids, out))"
proof (induction xs arbitrary: ids out)
  case Nil
  show ?case by simp
next
  case (Cons x xs)
  from Cons.prems have here: "\<forall>l \<in> set (piece_warnings x). list_all enc l"
    and rest: "\<forall>l \<in> set (concat (map piece_warnings xs)). list_all enc l"
    by simp_all
  note IH = Cons.IH [OF rest]
  show ?case
  proof (cases "length x = 36 \<and> count_list x (CHR ''-'') = 4")
    case True
    then show ?thesis
      by (simp add: IH)
  next
    case False
    then have c: "(length x = 36 \<and> count_list x (CHR ''-'') = 4) = False"
      by simp
    show ?thesis
    proof (cases "get_knowledge_base_by_name x")
      case (Some kb)
      then show ?thesis
        by (simp add: c IH)
    next
      case None
      with False have "piece_warnings x = [warning_line x]"
        by (simp add: piece_warnings_def ID_shaped_def)
      with here have "list_all enc (warning_line x)"
        by simp
      then have "print_enc enc (warning_line x) out = Inr (print (warning_line x) out)"
        by (simp add: print_enc_def)
      with None show ?thesis
        by (simp add: c IH)
    qed
  qed
qed

lemma parse_enc_items:
  "s \<noteq> [] \<Longrightarrow> str_lower s \<noteq> ''all'' \<Longrightarrow>
   parse_knowledge_base_selection_enc enc (Some s) out =
   resolve_items_enc enc (selection_pieces s) ([], out)"
  by (simp add: parse_knowledge_base_selection_enc_def selection_pieces_def items_eq_pieces
      Let_def)

lemma parse_enc_as_pieces:
  assumes "s \<noteq> []" and "str_lower s \<noteq> ''all''"
    and "\<forall>l \<in> set (concat (map piece_warnings (selection_pieces s))). list_all enc l"
  shows "parse_knowledge_base_selection_enc enc (Some s) out =
         Inr (concat (map resolve_piece (selection_pieces s)),
              out @ concat (map piece_warnings (selection_pieces s)))"
proof -
  from assms(3)
  have "resolve_items_enc enc (selection_pieces s) ([], out) =
        Inr (resolve_items (selection_pieces s) ([], out))"
    by (rule resolve_items_enc_eq)
  with assms(1,2) show ?thesis
    by (simp add: parse_enc_items resolve_items_eq)
qed

text \<open>UTF-8 can encode the warning for every name of the model.\<close>

lemma utf_8_encodes_warning: "list_all utf_8 (warning_line item)"
proof -
  have "utf_8 (of_char c)" for c :: char
  proof -
    have "(of_char c :: nat) < 256"
      by (rule nat_of_char_less_256)
    then show ?thesis
      unfolding utf_8_def by linarith
  qed
  then show ?thesis
    by (simp add: warning_line_def to_unicode_def list_all_iff utf_8_def)
qed

lemma utf_8_encodes_warnings:
  "\<forall>l \<in> set (concat (map piece_warnings ps)). list_all utf_8 l"
  by (auto simp: piece_warnings_def utf_8_encodes_warning split: if_splits option.splits)

text \<open>So on a UTF-8 stream the function never raises on the strings of the model, and
  returns and prints what it does on the stream that takes every line.\<close>

lemma parse_enc_utf_8:
  "parse_knowledge_base_selection_enc utf_8 selection out =
   Inr (parse_knowledge_base_selection selection out)"
  by (simp add: parse_knowledge_base_selection_enc_def parse_knowledge_base_selection_def
      resolve_items_enc_eq [OF utf_8_encodes_warnings] Let_def split: option.split)

text \<open>
  C4, as the code has it: a trimmed piece that is not shaped like an id is looked up
  by its lowercased name. When an entry of the catalog has that lowercased name, the
  id of the entry stands at the place of the piece and nothing is printed for it.
  When no entry has it, the piece gives no id, one warning line naming the piece is
  printed at its place, and the pieces after it are still resolved. All this is so,
  and no exception is raised, when standard output can encode the warning lines that
  the selection gives.
\<close>

theorem name_piece_found_or_dropped:
  assumes "s \<noteq> []" and "str_lower s \<noteq> ''all''"
    and "selection_pieces s = pre @ p # post"
    and "\<not> (length p = 36 \<and> count_list p (CHR ''-'') = 4)"
    and "\<forall>l \<in> set (concat (map piece_warnings (selection_pieces s))). list_all enc l"
  shows "(\<forall>kb \<in> set KNOWLEDGE_BASES. str_lower (name kb) = str_lower p \<longrightarrow>
            parse_knowledge_base_selection_enc enc (Some s) out =
            Inr (concat (map resolve_piece pre) @ [id' kb] @ concat (map resolve_piece post),
                 out @ concat (map piece_warnings pre) @ concat (map piece_warnings post)))
         \<and> (str_lower p \<notin> (\<lambda>kb. str_lower (name kb)) ` set KNOWLEDGE_BASES \<longrightarrow>
            parse_knowledge_base_selection_enc enc (Some s) out =
            Inr (concat (map resolve_piece pre) @ concat (map resolve_piece post),
                 out @ concat (map piece_warnings pre) @ [warning_line p]
                     @ concat (map piece_warnings post)))"
proof (intro conjI ballI impI)
  fix kb
  from assms(4) have ns: "\<not> ID_shaped p"
    by (simp add: ID_shaped_def)
  assume "kb \<in> set KNOWLEDGE_BASES" and "str_lower (name kb) = str_lower p"
  then have "get_knowledge_base_by_name p = Some kb"
    by (simp add: by_name_Some_iff)
  with ns have "resolve_piece p = [id' kb]" and "piece_warnings p = []"
    by (simp_all add: resolve_piece_def piece_warnings_def)
  with parse_enc_as_pieces [OF assms(1,2,5), of out]
  show "parse_knowledge_base_selection_enc enc (Some s) out =
            Inr (concat (map resolve_piece pre) @ [id' kb] @ concat (map resolve_piece post),
                 out @ concat (map piece_warnings pre) @ concat (map piece_warnings post))"
    by (simp add: assms(3))
next
  from assms(4) have ns: "\<not> ID_shaped p"
    by (simp add: ID_shaped_def)
  assume "str_lower p \<notin> (\<lambda>kb. str_lower (name kb)) ` set KNOWLEDGE_BASES"
  then have "get_knowledge_base_by_name p = None"
    by (simp add: by_name_None_iff)
  with ns have "resolve_piece p = []" and "piece_warnings p = [warning_line p]"
    by (simp_all add: resolve_piece_def piece_warnings_def)
  with parse_enc_as_pieces [OF assms(1,2,5), of out]
  show "parse_knowledge_base_selection_enc enc (Some s) out =
            Inr (concat (map resolve_piece pre) @ concat (map resolve_piece post),
                 out @ concat (map piece_warnings pre) @ [warning_line p]
                     @ concat (map piece_warnings post))"
    by (simp add: assms(3))
qed

text \<open>Three names, the second unknown, on a UTF-8 stream: the ids of the first and
  the third, and one warning line, for the second.\<close>

theorem name_piece_found_or_dropped_witness:
  "''Blossom Analysis,Nonexistent Org,MAPS'' \<noteq> []
   \<and> str_lower ''Blossom Analysis,Nonexistent Org,MAPS'' \<noteq> ''all''
   \<and> selection_pieces ''Blossom Analysis,Nonexistent Org,MAPS'' =
       [''Blossom Analysis''] @ ''Nonexistent Org'' # [''MAPS'']
   \<and> \<not> (length ''Nonexistent Org'' = 36 \<and> count_list ''Nonexistent Org'' (CHR ''-'') = 4)
   \<and> str_lower ''Nonexistent Org'' \<notin> (\<lambda>kb. str_lower (name kb)) ` set KNOWLEDGE_BASES
   \<and> list_all utf_8 (warning_line ''Nonexistent Org'')
   \<and> parse_knowledge_base_selection_enc utf_8
        (Some ''Blossom Analysis,Nonexistent Org,MAPS'') [] =
       Inr ([''8be6dfd9-ecaf-4e2b-8414-01aecb67e147'', ''f88d9d45-f25e-4051-8a84-a8d7873622b8''],
            [warning_line ''Nonexistent Org''])"
proof -
  have h1: "''Blossom Analysis,Nonexistent Org,MAPS'' \<noteq> []"
    by simp
  have h2: "str_lower ''Blossom Analysis,Nonexistent Org,MAPS'' \<noteq> ''all''"
    by (simp add: str_lower_def)
  have h3: "selection_pieces ''Blossom Analysis,Nonexistent Org,MAPS'' =
            [''Blossom Analysis''] @ ''Nonexistent Org'' # [''MAPS'']"
    by (simp add: pieces_eval)
  have h4: "\<not> (length ''Nonexistent Org'' = 36 \<and> count_list ''Nonexistent Org'' (CHR ''-'') = 4)"
    by simp
  have h5: "str_lower ''Nonexistent Org'' \<notin> (\<lambda>kb. str_lower (name kb)) ` set KNOWLEDGE_BASES"
    by (simp add: KNOWLEDGE_BASES_def lower_eval)
  have h6: "list_all utf_8 (warning_line ''Nonexistent Org'')"
    by (rule utf_8_encodes_warning)
  have r1: "resolve_piece ''Blossom Analysis'' = [''8be6dfd9-ecaf-4e2b-8414-01aecb67e147'']"
    by (simp add: piece_eval) (simp add: KNOWLEDGE_BASES_def)
  have r3: "resolve_piece ''MAPS'' = [''f88d9d45-f25e-4051-8a84-a8d7873622b8'']"
    by (simp add: piece_eval) (simp add: KNOWLEDGE_BASES_def)
  have w1: "piece_warnings ''Blossom Analysis'' = []"
    by (simp add: piece_eval)
  have w3: "piece_warnings ''MAPS'' = []"
    by (simp add: piece_eval)
  from name_piece_found_or_dropped [OF h1 h2 h3 h4 utf_8_encodes_warnings, of "[]"] h5
  have "parse_knowledge_base_selection_enc utf_8
          (Some ''Blossom Analysis,Nonexistent Org,MAPS'') [] =
        Inr (concat (map resolve_piece [''Blossom Analysis''])
               @ concat (map resolve_piece [''MAPS'']),
             [] @ concat (map piece_warnings [''Blossom Analysis''])
                @ [warning_line ''Nonexistent Org'']
                @ concat (map piece_warnings [''MAPS'']))"
    by blast
  then have r: "parse_knowledge_base_selection_enc utf_8
                  (Some ''Blossom Analysis,Nonexistent Org,MAPS'') [] =
       Inr ([''8be6dfd9-ecaf-4e2b-8414-01aecb67e147'', ''f88d9d45-f25e-4051-8a84-a8d7873622b8''],
            [warning_line ''Nonexistent Org''])"
    by (simp add: r1 r3 w1 w3)
  from h1 h2 h3 h4 h5 h6 r show ?thesis
    by (intro conjI)
qed

text \<open>
  C4, as it is stated, fails where it says that no input string makes the function
  raise: on an ASCII stream the warning sign cannot be encoded, so the first name that
  is not found ends the call with \<open>UnicodeEncodeError\<close>, and the ids found before it
  are not returned.
\<close>

theorem unknown_name_raises_on_ascii_stream:
  "parse_knowledge_base_selection_enc ascii
     (Some ''Blossom Analysis,Nonexistent Org,MAPS'') [] = Inl UnicodeEncodeError"
proof -
  have h1: "''Blossom Analysis,Nonexistent Org,MAPS'' \<noteq> []"
    by simp
  have h2: "str_lower ''Blossom Analysis,Nonexistent Org,MAPS'' \<noteq> ''all''"
    by (simp add: str_lower_def)
  have p: "selection_pieces ''Blossom Analysis,Nonexistent Org,MAPS'' =
           [''Blossom Analysis'', ''Nonexistent Org'', ''MAPS'']"
    by (simp add: pieces_eval)
  have f: "get_knowledge_base_by_name ''Blossom Analysis'' = Some (KNOWLEDGE_BASES ! 0)"
    by (simp add: get_knowledge_base_by_name_def by_name_table lower_eval)
  have n: "get_knowledge_base_by_name ''Nonexistent Org'' = None"
    by (simp add: get_knowledge_base_by_name_def by_name_table lower_eval)
  have e: "print_enc ascii (warning_line ''Nonexistent Org'') out = Inl UnicodeEncodeError"
    for out
    by (simp add: print_enc_def warning_line_def ascii_def)
  have r: "resolve_items_enc ascii [''Blossom Analysis'', ''Nonexistent Org'', ''MAPS'']
          ([], []) = Inl UnicodeEncodeError"
    by (simp add: f n e)
  show ?thesis
    by (simp only: parse_enc_items [OF h1 h2] p r)
qed

text \<open>
  C10: the word \<open>all\<close> selects the whole catalog only as the whole selection. In a
  selection that is not \<open>all\<close> itself, a trimmed piece that is \<open>all\<close> when lowercased
  is taken for a name: no entry has that name, so the piece gives no id and a warning
  line is printed for it, while the other pieces are resolved as usual.
\<close>

theorem all_inside_a_list_is_a_name:
  assumes "s \<noteq> []" and "str_lower s \<noteq> ''all''"
    and "selection_pieces s = pre @ p # post"
    and "str_lower p = ''all''"
  shows "get_knowledge_base_by_name p = None
         \<and> parse_knowledge_base_selection (Some s) out =
             (concat (map resolve_piece pre) @ concat (map resolve_piece post),
              out @ concat (map piece_warnings pre) @ [warning_line p]
                  @ concat (map piece_warnings post))"
proof -
  from assms(4) have "length (str_lower p) = 3"
    by simp
  then have "length p = 3"
    by (simp add: str_lower_def)
  then have ns: "\<not> ID_shaped p"
    by (simp add: ID_shaped_def)
  from assms(4) have n: "get_knowledge_base_by_name p = None"
    by (simp add: get_knowledge_base_by_name_def by_name_table)
  from ns n have "resolve_piece p = []" and "piece_warnings p = [warning_line p]"
    by (simp_all add: resolve_piece_def piece_warnings_def)
  with parse_split_at [OF assms(1-3), of out] n show ?thesis
    by simp
qed

text \<open>\<open>all,MAPS\<close> gives the id of MAPS alone, and \<open>all\<close> between two spaces gives
  nothing; each prints the warning for \<open>all\<close>.\<close>

theorem all_inside_a_list_is_a_name_witness:
  "''all,MAPS'' \<noteq> [] \<and> str_lower ''all,MAPS'' \<noteq> ''all''
   \<and> selection_pieces ''all,MAPS'' = [] @ ''all'' # [''MAPS'']
   \<and> str_lower ''all'' = ''all''
   \<and> parse_knowledge_base_selection (Some ''all,MAPS'') [] =
       ([''f88d9d45-f25e-4051-8a84-a8d7873622b8''], [warning_line ''all''])
   \<and> '' all '' \<noteq> [] \<and> str_lower '' all '' \<noteq> ''all''
   \<and> selection_pieces '' all '' = [] @ ''all'' # []
   \<and> parse_knowledge_base_selection (Some '' all '') [] = ([], [warning_line ''all''])"
proof -
  have h1: "''all,MAPS'' \<noteq> []"
    by simp
  have h2: "str_lower ''all,MAPS'' \<noteq> ''all''"
    by (simp add: str_lower_def)
  have h3: "selection_pieces ''all,MAPS'' = [] @ ''all'' # [''MAPS'']"
    by (simp add: pieces_eval)
  have h4: "str_lower ''all'' = ''all''"
    by (simp add: lower_eval)
  have r: "resolve_piece ''MAPS'' = [''f88d9d45-f25e-4051-8a84-a8d7873622b8'']"
    by (simp add: piece_eval) (simp add: KNOWLEDGE_BASES_def)
  have w: "piece_warnings ''MAPS'' = []"
    by (simp add: piece_eval)
  from all_inside_a_list_is_a_name [OF h1 h2 h3 h4, of "[]"]
  have a: "parse_knowledge_base_selection (Some ''all,MAPS'') [] =
       ([''f88d9d45-f25e-4051-8a84-a8d7873622b8''], [warning_line ''all''])"
    by (simp add: r w)
  have g1: "'' all '' \<noteq> []"
    by simp
  have g2: "str_lower '' all '' \<noteq> ''all''"
    by (simp add: str_lower_def)
  have g3: "selection_pieces '' all '' = [] @ ''all'' # []"
    by (simp add: pieces_eval)
  from all_inside_a_list_is_a_name [OF g1 g2 g3 h4, of "[]"]
  have b: "parse_knowledge_base_selection (Some '' all '') [] = ([], [warning_line ''all''])"
    by simp
  from h1 h2 h3 h4 a g1 g2 g3 b show ?thesis
    by (intro conjI)
qed

section \<open>The shape of what is returned\<close>

text \<open>
  C7: whatever the selection is, every string in the list that
  \<open>parse_knowledge_base_selection\<close> returns has 36 characters, four of them hyphens:
  a piece that is returned as it is has that shape by the test in the loop, and every
  id of the hardcoded catalog has it.
\<close>

theorem every_result_is_id_shaped:
  "\<forall>x \<in> set (fst (parse_knowledge_base_selection selection out)).
     length x = 36 \<and> count_list x (CHR ''-'') = 4"
proof
  fix x
  assume x: "x \<in> set (fst (parse_knowledge_base_selection selection out))"
  have "ID_shaped x"
  proof (cases selection)
    case None
    with x show ?thesis
      by (simp add: parse_knowledge_base_selection_def)
  next
    case (Some s)
    show ?thesis
    proof (cases "s = []")
      case True
      with Some x show ?thesis
        by (simp add: parse_knowledge_base_selection_def)
    next
      case ne: False
      show ?thesis
      proof (cases "str_lower s = ''all''")
        case True
        with ne Some x have "x \<in> id' ` set KNOWLEDGE_BASES"
          by (simp add: parse_knowledge_base_selection_def)
        then show ?thesis
          by (auto simp: catalog_ids_shaped)
      next
        case False
        with ne Some x have "x \<in> set (concat (map resolve_piece (selection_pieces s)))"
          by (simp add: parse_as_pieces)
        then obtain p where "x \<in> set (resolve_piece p)"
          by auto
        then show ?thesis
          by (rule resolve_piece_shaped)
      qed
    qed
  qed
  then show "length x = 36 \<and> count_list x (CHR ''-'') = 4"
    by (simp add: ID_shaped_def)
qed

text \<open>The id that the name \<open>maps\<close> gives is returned and has the shape.\<close>

theorem every_result_is_id_shaped_witness:
  "''f88d9d45-f25e-4051-8a84-a8d7873622b8'' \<in> set (fst (parse_knowledge_base_selection (Some ''maps'') []))
   \<and> length ''f88d9d45-f25e-4051-8a84-a8d7873622b8'' = 36
   \<and> count_list ''f88d9d45-f25e-4051-8a84-a8d7873622b8'' (CHR ''-'') = 4"
proof -
  have p: "selection_pieces ''maps'' = [''maps'']"
    by (simp add: pieces_eval)
  have r: "resolve_piece ''maps'' = [''f88d9d45-f25e-4051-8a84-a8d7873622b8'']"
    by (simp add: piece_eval) (simp add: KNOWLEDGE_BASES_def)
  have w: "piece_warnings ''maps'' = []"
    by (simp add: piece_eval)
  have "parse_knowledge_base_selection (Some ''maps'') [] =
        ([''f88d9d45-f25e-4051-8a84-a8d7873622b8''], [])"
    by (simp add: parse_as_pieces str_lower_def p r w)
  then have m: "''f88d9d45-f25e-4051-8a84-a8d7873622b8''
                \<in> set (fst (parse_knowledge_base_selection (Some ''maps'') []))"
    by simp
  from every_result_is_id_shaped [of "Some ''maps''" "[]"] m
  have "length ''f88d9d45-f25e-4051-8a84-a8d7873622b8'' = 36
        \<and> count_list ''f88d9d45-f25e-4051-8a84-a8d7873622b8'' (CHR ''-'') = 4"
    by (rule bspec)
  with m show ?thesis
    by (intro conjI) simp_all
qed

section \<open>The printed catalog\<close>

lemma print_entries_eq:
  "print_entries ies out = out @ concat (map (\<lambda>(i, kb). entry_block i kb) ies)"
  by (induction ies out rule: print_entries.induct)
     (simp_all add: print_entry_def print_def entry_block_def)

lemma fold_print: "fold print ls out = out @ ls"
  by (induction ls arbitrary: out) (simp_all add: print_def)

lemma enumerate_catalog:
  "List.enumerate 1 KNOWLEDGE_BASES = zip [1, 2, 3, 4, 5] KNOWLEDGE_BASES"
  by (simp add: KNOWLEDGE_BASES_def)

text \<open>
  C8, as the code has it: \<open>print_available_knowledge_bases\<close> itself prints. To what
  standard output held it adds a heading and a ruler, then for each entry of the
  catalog, in order, one block (the position counted from 1 with the name, the id,
  the URL of the organization, an empty line), then the usage examples. It reads
  nothing but the catalog and does nothing else.
\<close>

theorem catalog_printed_block_by_block:
  "print_available_knowledge_bases out =
     out @ [header_line, ruler_line]
         @ concat (map (\<lambda>(i, kb). entry_block i kb) (List.enumerate 1 KNOWLEDGE_BASES))
         @ usage_lines
   \<and> List.enumerate 1 KNOWLEDGE_BASES = zip [1, 2, 3, 4, 5] KNOWLEDGE_BASES
   \<and> entry_block 1 (KNOWLEDGE_BASES ! 0) =
       [to_unicode ''1. Blossom Analysis'',
        to_unicode ''   ID: 8be6dfd9-ecaf-4e2b-8414-01aecb67e147'',
        to_unicode ''   URL: https://blossomanalysis.com'',
        []]"
proof -
  have p: "print_available_knowledge_bases out =
     out @ [header_line, ruler_line]
         @ concat (map (\<lambda>(i, kb). entry_block i kb) (List.enumerate 1 KNOWLEDGE_BASES))
         @ usage_lines"
    by (simp add: print_available_knowledge_bases_def print_entries_eq fold_print print_def)
  have b: "entry_block 1 (KNOWLEDGE_BASES ! 0) =
       [to_unicode ''1. Blossom Analysis'',
        to_unicode ''   ID: 8be6dfd9-ecaf-4e2b-8414-01aecb67e147'',
        to_unicode ''   URL: https://blossomanalysis.com'',
        []]"
    by (simp add: entry_block_def KNOWLEDGE_BASES_def char_of_def bit_Suc_0_iff)
  from p enumerate_catalog b show ?thesis
    by (intro conjI)
qed

text \<open>
  C8, as it is stated, fails: the text is not handed to the caller, who would decide
  about printing it. Called with nothing printed so far, the function leaves 26 lines
  on standard output, the first of them the heading.
\<close>

theorem catalog_is_printed_by_the_function:
  "print_available_knowledge_bases [] \<noteq> []
   \<and> length (print_available_knowledge_bases []) = 26
   \<and> hd (print_available_knowledge_bases []) = header_line"
proof -
  have p: "print_available_knowledge_bases [] =
     [header_line, ruler_line]
         @ concat (map (\<lambda>(i, kb). entry_block i kb) (List.enumerate 1 KNOWLEDGE_BASES))
         @ usage_lines"
    by (simp add: print_available_knowledge_bases_def print_entries_eq fold_print print_def)
  have 1: "print_available_knowledge_bases [] \<noteq> []"
    by (simp add: p)
  have 2: "length (print_available_knowledge_bases []) = 26"
    by (simp add: p enumerate_catalog usage_lines_def entry_block_def KNOWLEDGE_BASES_def)
  have 3: "hd (print_available_knowledge_bases []) = header_line"
    by (simp add: p)
  from 1 2 3 show ?thesis
    by (intro conjI)
qed

section \<open>The listing and the records it shares\<close>

lemma catalog_length: "length KNOWLEDGE_BASES = 5"
  by (simp add: KNOWLEDGE_BASES_def)

lemma upt_5: "[0..<5] = [0, 1, 2, 3, 4]"
  by (simp add: upt_rec)

lemma module_heap_list:
  "objects module_heap KNOWLEDGE_BASES_ref = Some (ListObj [0..<length KNOWLEDGE_BASES])"
  by (simp add: module_heap_def KNOWLEDGE_BASES_ref_def)

lemma module_heap_free:
  "\<forall>a. next_ref module_heap \<le> a \<longrightarrow> objects module_heap a = None"
  by (simp add: module_heap_def KNOWLEDGE_BASES_ref_def)

lemma catalog_module_heap: "catalog module_heap = map Some KNOWLEDGE_BASES"
proof -
  have "catalog module_heap =
        map (\<lambda>a. Some (KNOWLEDGE_BASES ! a)) [0..<length KNOWLEDGE_BASES]"
    by (simp add: catalog_def deref_list_def get_record_def module_heap_def
        KNOWLEDGE_BASES_ref_def)
  also have "\<dots> = map Some (map (nth KNOWLEDGE_BASES) [0..<length KNOWLEDGE_BASES])"
    by simp
  also have "\<dots> = map Some KNOWLEDGE_BASES"
    by (simp only: map_nth)
  finally show ?thesis .
qed

lemma get_record_alloc_list:
  "objects h (next_ref h) = None \<Longrightarrow> get_record (snd (alloc (ListObj ys) h)) = get_record h"
  by (rule ext) (simp add: get_record_def alloc_def)

lemma get_record_list_store:
  "get_record h r = None \<Longrightarrow> get_record (list_store r ys h) = get_record h"
  by (rule ext) (simp add: get_record_def list_store_def)

lemma deref_list_alloc_list:
  assumes "objects h (next_ref h) = None"
  shows "deref_list (snd (alloc (ListObj ys) h)) l =
         (if l = next_ref h then map (get_record h) ys else deref_list h l)"
proof -
  have "objects (snd (alloc (ListObj ys) h)) l =
        (if l = next_ref h then Some (ListObj ys) else objects h l)"
    by (simp add: alloc_def)
  then show ?thesis
    by (simp add: deref_list_def get_record_alloc_list [OF assms]
        split: option.split object.split)
qed

lemma deref_list_store_other:
  assumes "get_record h r = None" and "l \<noteq> r"
  shows "deref_list (list_store r ys h) l = deref_list h l"
proof -
  from assms(2) have "objects (list_store r ys h) l = objects h l"
    by (simp add: list_store_def)
  then show ?thesis
    by (simp add: deref_list_def get_record_list_store [OF assms(1)]
        split: option.split object.split)
qed

text \<open>
  C9, as the code has it: \<open>list_available_knowledge_bases\<close> returns a new list object
  that holds the references of the catalog list, in its order (a shallow copy). The
  call changes no object that existed, and whatever a caller then stores in the
  returned list leaves the catalog list, the catalog it refers to and every other
  object as they were. The records themselves are not copied.
\<close>

theorem listing_is_a_shallow_copy:
  assumes "objects h KNOWLEDGE_BASES_ref = Some (ListObj xs)"
    and "\<forall>a. next_ref h \<le> a \<longrightarrow> objects h a = None"
  shows "\<exists>h'. list_available_knowledge_bases h = Some (next_ref h, h')
           \<and> objects h (next_ref h) = None
           \<and> objects h' (next_ref h) = Some (ListObj xs)
           \<and> deref_list h' (next_ref h) = catalog h
           \<and> (\<forall>a. a \<noteq> next_ref h \<longrightarrow> objects h' a = objects h a)
           \<and> catalog h' = catalog h
           \<and> (\<forall>ys. catalog (list_store (next_ref h) ys h') = catalog h)
           \<and> (\<forall>ys a. a \<noteq> next_ref h \<longrightarrow>
                 objects (list_store (next_ref h) ys h') a = objects h a)"
proof -
  let ?r = "next_ref h"
  let ?h' = "snd (alloc (ListObj xs) h)"
  from assms(2) have fresh: "objects h ?r = None"
    by simp
  with assms(1) have ne: "KNOWLEDGE_BASES_ref \<noteq> ?r"
    by auto
  have 1: "list_available_knowledge_bases h = Some (?r, ?h')"
    by (simp add: list_available_knowledge_bases_def list_copy_def assms(1) alloc_def)
  have 2: "objects ?h' ?r = Some (ListObj xs)"
    by (simp add: alloc_def)
  have 3: "deref_list ?h' ?r = catalog h"
    by (simp add: deref_list_alloc_list [OF fresh] catalog_def)
       (simp add: deref_list_def assms(1))
  have 4: "\<forall>a. a \<noteq> ?r \<longrightarrow> objects ?h' a = objects h a"
    by (simp add: alloc_def)
  have 5: "catalog ?h' = catalog h"
    using ne by (simp add: catalog_def deref_list_alloc_list [OF fresh])
  have nr: "get_record ?h' ?r = None"
    by (simp add: get_record_def 2)
  have 6: "\<forall>ys. catalog (list_store ?r ys ?h') = catalog h"
    using deref_list_store_other [OF nr ne] 5 by (simp add: catalog_def)
  have 7: "\<forall>ys a. a \<noteq> ?r \<longrightarrow> objects (list_store ?r ys ?h') a = objects h a"
    by (simp add: list_store_def alloc_def)
  from 1 fresh 2 3 4 5 6 7 show ?thesis
    by blast
qed

text \<open>After the module is loaded: the listing is a new object, it shows the five
  records of the catalog, and clearing it leaves the catalog as it was.\<close>

theorem listing_is_a_shallow_copy_witness:
  "objects module_heap KNOWLEDGE_BASES_ref = Some (ListObj [0..<length KNOWLEDGE_BASES])
   \<and> map_option (\<lambda>(r, h'). (r, deref_list h' r, catalog (list_store r [] h')))
        (list_available_knowledge_bases module_heap) =
      Some (6, map Some KNOWLEDGE_BASES, map Some KNOWLEDGE_BASES)"
proof -
  have r: "next_ref module_heap = 6"
    by (simp add: module_heap_def KNOWLEDGE_BASES_ref_def catalog_length)
  from listing_is_a_shallow_copy [OF module_heap_list module_heap_free]
  obtain h' where "list_available_knowledge_bases module_heap = Some (next_ref module_heap, h')"
    and "deref_list h' (next_ref module_heap) = catalog module_heap"
    and "\<forall>ys. catalog (list_store (next_ref module_heap) ys h') = catalog module_heap"
    by blast
  then have "map_option (\<lambda>(r, h'). (r, deref_list h' r, catalog (list_store r [] h')))
        (list_available_knowledge_bases module_heap) =
      Some (6, map Some KNOWLEDGE_BASES, map Some KNOWLEDGE_BASES)"
    by (simp add: r catalog_module_heap)
  with module_heap_list show ?thesis
    by (intro conjI)
qed

text \<open>
  C9, as it is stated, fails: a caller that takes the listing and assigns the name of
  its first element has changed the first record of the catalog.
\<close>

theorem listing_shares_the_records:
  "map (map_option name) (catalog module_heap) =
     [Some ''Blossom Analysis'', Some ''Lucid News'', Some ''MAPS'',
      Some ''Psychedelic Alpha'', Some ''Psychedelics Today'']
   \<and> map_option (\<lambda>h. map (map_option name) (catalog h)) (rename_first ''X'' module_heap) =
     Some [Some ''X'', Some ''Lucid News'', Some ''MAPS'',
           Some ''Psychedelic Alpha'', Some ''Psychedelics Today'']"
proof -
  have a: "map (map_option name) (catalog module_heap) =
     [Some ''Blossom Analysis'', Some ''Lucid News'', Some ''MAPS'',
      Some ''Psychedelic Alpha'', Some ''Psychedelics Today'']"
    by (simp add: catalog_module_heap) (simp add: KNOWLEDGE_BASES_def)
  define h1 where "h1 = snd (alloc (ListObj [0..<length KNOWLEDGE_BASES]) module_heap)"
  have o: "objects h1 =
           (\<lambda>a. if a = 6 then Some (ListObj [0, 1, 2, 3, 4]) else objects module_heap a)"
    by (simp add: h1_def alloc_def module_heap_def KNOWLEDGE_BASES_ref_def catalog_length
        upt_5 fun_eq_iff)
  have l: "list_available_knowledge_bases module_heap = Some (6, h1)"
    by (simp add: list_available_knowledge_bases_def list_copy_def module_heap_list h1_def)
       (simp add: alloc_def module_heap_def KNOWLEDGE_BASES_ref_def catalog_length)
  have g: "get_item h1 6 0 = Some 0"
    by (simp add: get_item_def o)
  have r0: "objects h1 0 = Some (Record (KNOWLEDGE_BASES ! 0))"
    by (simp add: o module_heap_def catalog_length)
  have kr: "KNOWLEDGE_BASES_ref = 5"
    by (simp add: KNOWLEDGE_BASES_ref_def catalog_length)
  define h2 where "h2 = set_name 0 ''X'' h1"
  have o2: "objects h2 = (objects h1)(0 \<mapsto> Record ((KNOWLEDGE_BASES ! 0)\<lparr>name := ''X''\<rparr>))"
    by (simp add: h2_def set_name_def r0)
  have c: "objects h2 5 = Some (ListObj [0, 1, 2, 3, 4])"
    by (simp add: o2 o module_heap_def kr catalog_length upt_5)
  have rec: "get_record h2 a =
             (if a = 0 then Some ((KNOWLEDGE_BASES ! 0)\<lparr>name := ''X''\<rparr>)
              else if a < 5 then Some (KNOWLEDGE_BASES ! a) else None)" for a
    by (simp add: get_record_def o2 o module_heap_def kr catalog_length)
  have "catalog h2 =
        [Some ((KNOWLEDGE_BASES ! 0)\<lparr>name := ''X''\<rparr>), Some (KNOWLEDGE_BASES ! 1),
         Some (KNOWLEDGE_BASES ! 2), Some (KNOWLEDGE_BASES ! 3), Some (KNOWLEDGE_BASES ! 4)]"
    by (simp add: catalog_def deref_list_def kr c rec)
  then have b: "map (map_option name) (catalog (set_name 0 ''X'' h1)) =
           [Some ''X'', Some ''Lucid News'', Some ''MAPS'',
            Some ''Psychedelic Alpha'', Some ''Psychedelics Today'']"
    by (simp add: h2_def KNOWLEDGE_BASES_def)
  have "map_option (\<lambda>h. map (map_option name) (catalog h)) (rename_first ''X'' module_heap) =
     Some [Some ''X'', Some ''Lucid News'', Some ''MAPS'',
           Some ''Psychedelic Alpha'', Some ''Psychedelics Today'']"
    by (simp add: rename_first_def l g b)
  with a show ?thesis
    by (intro conjI)
qed

end
